theory Spec2Isabelle
  imports Main
begin

section \<open>Python values used by the engine\<close>

text \<open>
  The exceptions the engine can raise. Every \<^verbatim>\<open>raise\<close> of the source is a
  \<open>ValueError\<close> carrying its message; the other three are raised by the Python
  runtime itself: \<open>TypeError\<close> by arithmetic or comparison with \<^verbatim>\<open>None\<close>,
  \<open>IndexError\<close> by indexing or popping out of range, \<open>AttributeError\<close> by a method
  call on \<^verbatim>\<open>None\<close> or a call of a method the class does not define.
\<close>

datatype exn = ValueError string | TypeError | IndexError | AttributeError

text \<open>
  The module \<^verbatim>\<open>settings\<close> is imported by the sources but is not part of them: its
  constants are parameters of every operation that reads them.
\<close>

record settings =
  MAX_DECK_PACKS :: int
  MAX_SPLITS :: int
  MINIMUM_BET :: int

section \<open>cards.py: Card\<close>

text \<open>
  \<^verbatim>\<open>Card.__init__\<close> raises unless the rank is one of the thirteen strings of
  \<^verbatim>\<open>Card.RANKS\<close> and the suit one of the four of \<^verbatim>\<open>Card.SUITS\<close>, and the two
  fields are private and never reassigned: a Card object is a rank and a suit.
  \<open>R2\<close> .. \<open>R10\<close> stand for the strings "2" .. "10".
\<close>

datatype rank = A | R2 | R3 | R4 | R5 | R6 | R7 | R8 | R9 | R10 | J | Q | K

datatype suit = Spades | Diamonds | Hearts | Clubs

datatype card = Card rank suit

definition SUITS :: "suit list" where
  "SUITS = [Spades, Diamonds, Hearts, Clubs]"

definition RANKS :: "rank list" where
  "RANKS = [A, R2, R3, R4, R5, R6, R7, R8, R9, R10, J, Q, K]"

fun get_rank :: "card \<Rightarrow> rank" where
  "get_rank (Card r s) = r"

fun get_suit :: "card \<Rightarrow> suit" where
  "get_suit (Card r s) = s"

section \<open>cards.py: Deck\<close>

text \<open>
  A Deck object. \<open>Deck_cards\<close> is the private attribute \<^verbatim>\<open>self.__cards\<close>, which
  Python stores under the mangled name \<^verbatim>\<open>_Deck__cards\<close>. Inside the class body the
  identifier \<^verbatim>\<open>__Deck_cards\<close> of \<^verbatim>\<open>pass_cards\<close> is mangled the same way, to
  \<^verbatim>\<open>_Deck__Deck_cards\<close>: it is a second attribute, \<open>Deck_Deck_cards\<close>, absent
  (\<open>None\<close>) on a deck made by \<^verbatim>\<open>__init__\<close>.
\<close>

record deck =
  Deck_cards :: "card list"
  Deck_Deck_cards :: "card list option"

text \<open>The two inner loops of \<^verbatim>\<open>Deck.__init__\<close>: one pack appended to the list.\<close>

definition rank_loop :: "suit \<Rightarrow> card list \<Rightarrow> card list" where
  "rank_loop s cs = fold (\<lambda>r acc. acc @ [Card r s]) RANKS cs"

definition suit_loop :: "card list \<Rightarrow> card list" where
  "suit_loop cs = fold rank_loop SUITS cs"

text \<open>The outer loop, \<^verbatim>\<open>for _ in range(number_of_decks)\<close>.\<close>

primrec pack_loop :: "nat \<Rightarrow> card list \<Rightarrow> card list" where
  "pack_loop 0 cs = cs"
| "pack_loop (Suc n) cs = pack_loop n (suit_loop cs)"

definition Deck_init :: "settings \<Rightarrow> int \<Rightarrow> exn + deck" where
  "Deck_init cfg number_of_decks =
     (if number_of_decks < 0 \<or> number_of_decks > MAX_DECK_PACKS cfg
      then Inl (ValueError ''Invalid number of decks passed.'')
      else Inr \<lparr>Deck_cards = pack_loop (nat number_of_decks) [], Deck_Deck_cards = None\<rparr>)"

definition pass_cards :: "settings \<Rightarrow> card list \<Rightarrow> exn + deck" where
  "pass_cards cfg cs =
     (if length cs = 0 then Inl (ValueError ''Deck cannot be empty.'')
      else case Deck_init cfg 0 of
             Inl e \<Rightarrow> Inl e
           | Inr d \<Rightarrow> Inr (d\<lparr>Deck_Deck_cards := Some cs\<rparr>))"

text \<open>\<^verbatim>\<open>Deck.draw\<close>: the outcome and the deck afterwards.\<close>

definition draw :: "deck \<Rightarrow> (exn + card) \<times> deck" where
  "draw d =
     (case Deck_cards d of
        [] \<Rightarrow> (Inl (ValueError ''Taking card from empty deck.''), d)
      | c # cs \<Rightarrow> (Inr c, d\<lparr>Deck_cards := cs\<rparr>))"

text \<open>\<open>n\<close> successive calls of \<^verbatim>\<open>draw\<close>, stopping at the first that raises.\<close>

primrec draw_n :: "nat \<Rightarrow> deck \<Rightarrow> (exn + card list) \<times> deck" where
  "draw_n 0 d = (Inr [], d)"
| "draw_n (Suc n) d =
     (case draw d of
        (Inl e, d') \<Rightarrow> (Inl e, d')
      | (Inr c, d') \<Rightarrow>
          (case draw_n n d' of
             (Inl e, d'') \<Rightarrow> (Inl e, d'')
           | (Inr cs, d'') \<Rightarrow> (Inr (c # cs), d'')))"

section \<open>cards.py: Hand\<close>

text \<open>
  A Hand object: its cards, its bet (\<^verbatim>\<open>None\<close> until \<^verbatim>\<open>set_bet\<close>) and its active
  flag. Each hand owns its list of cards.
\<close>

record hand =
  Hand_cards :: "card list"
  Hand_bet :: "int option"
  Hand_is_active :: bool

definition Hand_init :: "card list option \<Rightarrow> hand" where
  "Hand_init cs =
     \<lparr>Hand_cards = (case cs of None \<Rightarrow> [] | Some l \<Rightarrow> l),
      Hand_bet = None, Hand_is_active = True\<rparr>"

definition add_card :: "hand \<Rightarrow> card \<Rightarrow> hand" where
  "add_card h c = h\<lparr>Hand_cards := Hand_cards h @ [c]\<rparr>"

text \<open>\<^verbatim>\<open>set_bet\<close>: \<^verbatim>\<open>None\<close> is not an \<^verbatim>\<open>int\<close>, so it fails the first check.\<close>

definition set_bet :: "settings \<Rightarrow> hand \<Rightarrow> int option \<Rightarrow> exn + hand" where
  "set_bet cfg h b =
     (case b of
        None \<Rightarrow> Inl (ValueError ''Bet must be an integer.'')
      | Some v \<Rightarrow>
          if v < MINIMUM_BET cfg
          then Inl (ValueError ''Bet must be greater than minimum bet.'')
          else Inr (h\<lparr>Hand_bet := Some v\<rparr>))"

definition deactivate :: "hand \<Rightarrow> hand" where
  "deactivate h = h\<lparr>Hand_is_active := False\<rparr>"

subsection \<open>The score\<close>

text \<open>The \<^verbatim>\<open>map\<close> of \<^verbatim>\<open>get_score\<close> that replaces J, Q and K with "10".\<close>

definition face_to_ten :: "rank \<Rightarrow> rank" where
  "face_to_ten r = (if r \<in> {J, Q, K} then R10 else r)"

text \<open>Python's \<^verbatim>\<open>int(rank)\<close> on a rank string.\<close>

fun py_int :: "rank \<Rightarrow> exn + int" where
  "py_int R2 = Inr 2"
| "py_int R3 = Inr 3"
| "py_int R4 = Inr 4"
| "py_int R5 = Inr 5"
| "py_int R6 = Inr 6"
| "py_int R7 = Inr 7"
| "py_int R8 = Inr 8"
| "py_int R9 = Inr 9"
| "py_int R10 = Inr 10"
| "py_int r = Inl (ValueError ''invalid literal for int() with base 10'')"

text \<open>The comprehension \<^verbatim>\<open>[int(rank) for rank in ranks if rank != "A"]\<close>.\<close>

fun number_ranks :: "rank list \<Rightarrow> exn + int list" where
  "number_ranks [] = Inr []"
| "number_ranks (r # rs) =
     (if r \<noteq> A
      then (case py_int r of
              Inl e \<Rightarrow> Inl e
            | Inr v \<Rightarrow> (case number_ranks rs of Inl e \<Rightarrow> Inl e | Inr vs \<Rightarrow> Inr (v # vs)))
      else number_ranks rs)"

text \<open>
  The \<^verbatim>\<open>while\<close> loop of \<^verbatim>\<open>get_score\<close>, on \<^verbatim>\<open>eleven_counter\<close> and
  \<^verbatim>\<open>aces_score\<close>; it returns \<^verbatim>\<open>sum(aces_score) + score\<close>.
\<close>

fun aces_loop :: "nat \<Rightarrow> int \<Rightarrow> nat \<Rightarrow> int list \<Rightarrow> int" where
  "aces_loop aces_quantity score 0 aces_score = sum_list aces_score + score"
| "aces_loop aces_quantity score (Suc k) aces_score =
     (if sum_list aces_score + score > 21
      then aces_loop aces_quantity score k
             (replicate k 11 @ replicate (aces_quantity - k) 1)
      else sum_list aces_score + score)"

definition get_score :: "hand \<Rightarrow> exn + int" where
  "get_score h =
     (let hand = Hand_cards h in
      if length hand = 0 then Inr 0
      else
        let ranks = map get_rank hand;
            ranks = map face_to_ten ranks;
            aces_quantity = count_list ranks A
        in case number_ranks ranks of
             Inl e \<Rightarrow> Inl e
           | Inr ns \<Rightarrow>
               let score = sum_list ns in
               if aces_quantity = 0 then Inr score
               else Inr (aces_loop aces_quantity score aces_quantity
                           (replicate aces_quantity 11)))"

definition is_blackjack :: "hand \<Rightarrow> exn + bool" where
  "is_blackjack h =
     (case get_score h of
        Inl e \<Rightarrow> Inl e
      | Inr s \<Rightarrow> if s \<noteq> 21 then Inr False
                 else if length (Hand_cards h) \<noteq> 2 then Inr False
                 else Inr True)"

definition is_bust :: "hand \<Rightarrow> exn + bool" where
  "is_bust h = (case get_score h of Inl e \<Rightarrow> Inl e | Inr s \<Rightarrow> Inr (s > 21))"

text \<open>
  \<^verbatim>\<open>has_pair\<close> starts with \<^verbatim>\<open>self.number_of_cards()\<close>, a method that \<^verbatim>\<open>Hand\<close>
  does not define: the attribute lookup raises.
\<close>

definition number_of_cards :: "hand \<Rightarrow> exn + nat" where
  "number_of_cards h = Inl AttributeError"

definition has_pair :: "hand \<Rightarrow> exn + bool" where
  "has_pair h =
     (case number_of_cards h of
        Inl e \<Rightarrow> Inl e
      | Inr n \<Rightarrow>
          if n \<noteq> 2 then Inr False
          else if get_rank (Hand_cards h ! 0) \<noteq> get_rank (Hand_cards h ! 1) then Inr False
          else Inr True)"

text \<open>\<^verbatim>\<open>double_bet\<close>: \<^verbatim>\<open>self.__bet *= 2\<close> on an unset bet is a \<open>TypeError\<close>.\<close>

definition double_bet :: "hand \<Rightarrow> exn + hand" where
  "double_bet h =
     (case Hand_bet h of
        None \<Rightarrow> Inl TypeError
      | Some b \<Rightarrow> Inr (h\<lparr>Hand_bet := Some (b * 2)\<rparr>))"

text \<open>
  \<^verbatim>\<open>get_card_by_index\<close>: the guard, then Python's list indexing, which raises
  \<open>IndexError\<close> past the end.
\<close>

definition get_card_by_index :: "hand \<Rightarrow> int \<Rightarrow> exn + card" where
  "get_card_by_index h index =
     (if index \<notin> {0, 1}
      then Inl (ValueError ''get_card_by_index method being used incorrectly.'')
      else if nat index < length (Hand_cards h) then Inr (Hand_cards h ! nat index)
      else Inl IndexError)"

subsection \<open>The score as the specification words it\<close>

text \<open>The values a card may take: an Ace 1 or 11, a face card 10, a number its number.\<close>

fun card_values :: "rank \<Rightarrow> int list" where
  "card_values A = [1, 11]"
| "card_values R2 = [2]"
| "card_values R3 = [3]"
| "card_values R4 = [4]"
| "card_values R5 = [5]"
| "card_values R6 = [6]"
| "card_values R7 = [7]"
| "card_values R8 = [8]"
| "card_values R9 = [9]"
| "card_values r = [10]"

text \<open>Every total obtainable from a list of cards, one per choice of the Aces' values.\<close>

fun totals :: "card list \<Rightarrow> int list" where
  "totals [] = [0]"
| "totals (c # cs) = concat (map (\<lambda>v. map (\<lambda>t. v + t) (totals cs)) (card_values (get_rank c)))"

text \<open>
  The largest total not above 21, or the smallest total when every total is above 21.
\<close>

definition spec_score :: "card list \<Rightarrow> int" where
  "spec_score cs =
     (let ts = totals cs; ok = filter (\<lambda>t. t \<le> 21) ts
      in if ok = [] then Min (set ts) else Max (set ok))"

text \<open>The same totals in closed form: every Ace counted 1, and the number of Aces.\<close>

definition low_total :: "rank list \<Rightarrow> int" where
  "low_total rs = sum_list (map (\<lambda>r. hd (card_values r)) rs)"

definition n_aces :: "rank list \<Rightarrow> nat" where
  "n_aces rs = count_list (map face_to_ten rs) A"

subsection \<open>Splitting a hand\<close>

text \<open>
  \<^verbatim>\<open>Hand.split\<close>: the guard on \<^verbatim>\<open>has_pair\<close>, then \<^verbatim>\<open>pop()\<close> of the last card.
  It returns the card and the hand afterwards.
\<close>

definition Hand_split :: "hand \<Rightarrow> exn + card \<times> hand" where
  "Hand_split h =
     (case has_pair h of
        Inl e \<Rightarrow> Inl e
      | Inr p \<Rightarrow>
          if \<not> p then Inl (ValueError ''Hand cannot be split.'')
          else if Hand_cards h = [] then Inl IndexError
          else Inr (last (Hand_cards h), h\<lparr>Hand_cards := butlast (Hand_cards h)\<rparr>))"

section \<open>has_hands.py: the objects and their store\<close>

text \<open>
  Hand objects are shared by reference: the hand given to \<^verbatim>\<open>hit\<close> or \<^verbatim>\<open>split\<close> may
  or may not be one of the player's own. The store \<open>heap\<close> holds every Hand object
  made so far, and a reference is its position there; a new Hand is appended.
\<close>

type_synonym ref = nat

record player =
  Player_name :: string
  Player_purse :: int
  Player_hands :: "ref list"
  Player_split_count :: int

record dealer =
  Dealer_hand :: "ref option"

text \<open>The objects a call can reach: one deck, the hands, a player and a dealer.\<close>

record state =
  deck :: deck
  heap :: "hand list"
  player :: player
  dealer :: dealer

text \<open>Which class \<^verbatim>\<open>self\<close> belongs to, for the abstract method \<^verbatim>\<open>get_hand\<close>.\<close>

datatype holder = PlayerSelf | DealerSelf

definition upd_hand :: "ref \<Rightarrow> (hand \<Rightarrow> hand) \<Rightarrow> state \<Rightarrow> state" where
  "upd_hand r f st = st\<lparr>heap := (heap st)[r := f (heap st ! r)]\<rparr>"

definition Player_init :: "string \<Rightarrow> int \<Rightarrow> exn + player" where
  "Player_init name purse =
     (if name = [] then Inl (ValueError ''Name cannot be empty.'')
      else Inr \<lparr>Player_name = name, Player_purse = purse,
                Player_hands = [], Player_split_count = 0\<rparr>)"

text \<open>
  \<^verbatim>\<open>Player.get_purse\<close> has a docstring and no \<^verbatim>\<open>return\<close>: the call returns
  \<^verbatim>\<open>None\<close>.
\<close>

definition get_purse :: "player \<Rightarrow> int option" where
  "get_purse p = None"

text \<open>\<^verbatim>\<open>Player.get_hand\<close>: the first active hand of the player, or \<^verbatim>\<open>None\<close>.\<close>

definition Player_get_hand :: "state \<Rightarrow> ref option" where
  "Player_get_hand st = find (\<lambda>r. Hand_is_active (heap st ! r)) (Player_hands (player st))"

definition Dealer_get_hand :: "state \<Rightarrow> ref option" where
  "Dealer_get_hand st = Dealer_hand (dealer st)"

fun get_hand :: "holder \<Rightarrow> state \<Rightarrow> ref option" where
  "get_hand PlayerSelf st = Player_get_hand st"
| "get_hand DealerSelf st = Dealer_get_hand st"

definition Player_give_hand :: "ref \<Rightarrow> state \<Rightarrow> state" where
  "Player_give_hand r st =
     st\<lparr>player := (player st)\<lparr>Player_hands := Player_hands (player st) @ [r]\<rparr>\<rparr>"

definition Dealer_give_hand :: "ref \<Rightarrow> state \<Rightarrow> state" where
  "Dealer_give_hand r st = st\<lparr>dealer := (dealer st)\<lparr>Dealer_hand := Some r\<rparr>\<rparr>"

section \<open>has_hands.py: HasHands\<close>

text \<open>
  \<^verbatim>\<open>HasHands.hit\<close>. Every operation returns its outcome together with the state
  it leaves, so that what was mutated before a raise stays visible. A hand that is
  still \<^verbatim>\<open>None\<close> after \<^verbatim>\<open>get_hand\<close> fails at \<^verbatim>\<open>hand.add_card\<close>, after the draw.
\<close>

definition hit :: "holder \<Rightarrow> ref option \<Rightarrow> state \<Rightarrow> (exn + unit) \<times> state" where
  "hit self hand st =
     (let hand = (if hand = None then get_hand self st else hand) in
      case draw (deck st) of
        (Inl e, d) \<Rightarrow> (Inl e, st\<lparr>deck := d\<rparr>)
      | (Inr drawn_card, d) \<Rightarrow>
          (let st1 = st\<lparr>deck := d\<rparr> in
           case hand of
             None \<Rightarrow> (Inl AttributeError, st1)
           | Some r \<Rightarrow>
               (let st2 = upd_hand r (\<lambda>h. add_card h drawn_card) st1 in
                case is_bust (heap st2 ! r) of
                  Inl e \<Rightarrow> (Inl e, st2)
                | Inr b \<Rightarrow>
                    if b \<or> length (Hand_cards (heap st2 ! r)) = 5
                    then (Inr (), upd_hand r deactivate st2)
                    else (Inr (), st2))))"

definition stick :: "holder \<Rightarrow> ref option \<Rightarrow> state \<Rightarrow> (exn + unit) \<times> state" where
  "stick self hand st =
     (let hand = (if hand = None then get_hand self st else hand) in
      case hand of
        None \<Rightarrow> (Inl AttributeError, st)
      | Some r \<Rightarrow> (Inr (), upd_hand r deactivate st))"

section \<open>has_hands.py: Player\<close>

text \<open>
  \<^verbatim>\<open>can_split\<close>. Comparing the purse with an unset bet is a \<open>TypeError\<close>; the last
  line is the call of \<^verbatim>\<open>has_pair\<close>.
\<close>

definition can_split :: "settings \<Rightarrow> ref option \<Rightarrow> state \<Rightarrow> exn + bool" where
  "can_split cfg hand st =
     (let hand = (if hand = None then Player_get_hand st else hand) in
      case hand of
        None \<Rightarrow> Inl AttributeError
      | Some r \<Rightarrow>
          (case Hand_bet (heap st ! r) of
             None \<Rightarrow> Inl TypeError
           | Some b \<Rightarrow>
               if Player_purse (player st) < b then Inr False
               else if Player_split_count (player st) \<ge> MAX_SPLITS cfg then Inr False
               else has_pair (heap st ! r)))"

text \<open>
  \<^verbatim>\<open>Player.split\<close>, statement by statement: the counter, the purse, the \<^verbatim>\<open>pop()\<close>,
  the new Hand object and its bet, the two hits, \<^verbatim>\<open>give_hand\<close>. There is no guard.
\<close>

definition Player_split :: "settings \<Rightarrow> ref option \<Rightarrow> state \<Rightarrow> (exn + unit) \<times> state" where
  "Player_split cfg hand st =
     (let hand = (if hand = None then Player_get_hand st else hand);
          st1 = st\<lparr>player := (player st)
                  \<lparr>Player_split_count := Player_split_count (player st) + 1\<rparr>\<rparr>
      in case hand of
           None \<Rightarrow> (Inl AttributeError, st1)
         | Some r \<Rightarrow>
             (case Hand_bet (heap st1 ! r) of
                None \<Rightarrow> (Inl TypeError, st1)
              | Some b \<Rightarrow>
                  (let st2 = st1\<lparr>player := (player st1)
                                 \<lparr>Player_purse := Player_purse (player st1) - b\<rparr>\<rparr>
                   in if Hand_cards (heap st2 ! r) = [] then (Inl IndexError, st2)
                      else
                        (let second_card = last (Hand_cards (heap st2 ! r));
                             st3 = upd_hand r (\<lambda>h. h\<lparr>Hand_cards := butlast (Hand_cards h)\<rparr>) st2;
                             split_hand = length (heap st3);
                             st4 = st3\<lparr>heap := heap st3 @ [Hand_init (Some [second_card])]\<rparr>
                         in case set_bet cfg (heap st4 ! split_hand) (Hand_bet (heap st4 ! r)) of
                              Inl e \<Rightarrow> (Inl e, st4)
                            | Inr h' \<Rightarrow>
                                (let st5 = st4\<lparr>heap := (heap st4)[split_hand := h']\<rparr> in
                                 case hit PlayerSelf (Some r) st5 of
                                   (Inl e, st6) \<Rightarrow> (Inl e, st6)
                                 | (Inr u, st6) \<Rightarrow>
                                     (case hit PlayerSelf (Some split_hand) st6 of
                                        (Inl e, st7) \<Rightarrow> (Inl e, st7)
                                      | (Inr v, st7) \<Rightarrow>
                                          (Inr (), Player_give_hand split_hand st7)))))))"

definition can_double_down :: "ref option \<Rightarrow> state \<Rightarrow> exn + bool" where
  "can_double_down hand st =
     (let hand = (if hand = None then Player_get_hand st else hand) in
      case hand of
        None \<Rightarrow> Inl AttributeError
      | Some r \<Rightarrow>
          (case Hand_bet (heap st ! r) of
             None \<Rightarrow> Inl TypeError
           | Some b \<Rightarrow>
               Inr (Player_purse (player st) \<ge> b \<and> length (Hand_cards (heap st ! r)) = 2)))"

text \<open>\<^verbatim>\<open>Player.double_down\<close>: the purse, the hit, the doubled bet, the flag. No guard.\<close>

definition double_down :: "ref option \<Rightarrow> state \<Rightarrow> (exn + unit) \<times> state" where
  "double_down hand st =
     (let hand = (if hand = None then Player_get_hand st else hand) in
      case hand of
        None \<Rightarrow> (Inl AttributeError, st)
      | Some r \<Rightarrow>
          (case Hand_bet (heap st ! r) of
             None \<Rightarrow> (Inl TypeError, st)
           | Some b \<Rightarrow>
               (let st1 = st\<lparr>player := (player st)
                              \<lparr>Player_purse := Player_purse (player st) - b\<rparr>\<rparr>
                in case hit PlayerSelf (Some r) st1 of
                     (Inl e, st2) \<Rightarrow> (Inl e, st2)
                   | (Inr u, st2) \<Rightarrow>
                       (case double_bet (heap st2 ! r) of
                          Inl e \<Rightarrow> (Inl e, st2)
                        | Inr h' \<Rightarrow>
                            (Inr (), upd_hand r deactivate
                                       (st2\<lparr>heap := (heap st2)[r := h']\<rparr>))))))"

section \<open>has_hands.py: Dealer\<close>

text \<open>A dealer without a hand holds \<^verbatim>\<open>None\<close>, and the method call on it raises.\<close>

definition upcard :: "state \<Rightarrow> exn + card" where
  "upcard st =
     (case Dealer_hand (dealer st) of
        None \<Rightarrow> Inl AttributeError
      | Some r \<Rightarrow> get_card_by_index (heap st ! r) 1)"

definition hole_card :: "state \<Rightarrow> exn + card" where
  "hole_card st =
     (case Dealer_hand (dealer st) of
        None \<Rightarrow> Inl AttributeError
      | Some r \<Rightarrow> get_card_by_index (heap st ! r) 0)"

section \<open>Auxiliary definitions for the statements\<close>

text \<open>One pack in the order the specification gives: suits outside, ranks inside.\<close>

definition one_pack :: "card list" where
  "one_pack = concat (map (\<lambda>s. map (\<lambda>r. Card r s) RANKS) SUITS)"

text \<open>A configuration and tables on which the statements below are evaluated.\<close>

definition sample_settings :: settings where
  "sample_settings = \<lparr>MAX_DECK_PACKS = 8, MAX_SPLITS = 3, MINIMUM_BET = 1\<rparr>"

text \<open>
  A player with the given purse who owns one hand, at reference 0, and a deck with the
  given cards; the dealer has no hand.
\<close>

definition player_table :: "card list \<Rightarrow> hand \<Rightarrow> int \<Rightarrow> state" where
  "player_table deck_cards h purse =
     \<lparr>deck = \<lparr>Deck_cards = deck_cards, Deck_Deck_cards = None\<rparr>,
      heap = [h],
      player = \<lparr>Player_name = ''Ann'', Player_purse = purse,
                Player_hands = [0], Player_split_count = 0\<rparr>,
      dealer = \<lparr>Dealer_hand = None\<rparr>\<rparr>"

text \<open>A dealer who holds the given cards, at reference 0; the player has no hand.\<close>

definition dealer_table :: "card list \<Rightarrow> state" where
  "dealer_table cs =
     \<lparr>deck = \<lparr>Deck_cards = [], Deck_Deck_cards = None\<rparr>,
      heap = [Hand_init (Some cs)],
      player = \<lparr>Player_name = ''Ann'', Player_purse = 100,
                Player_hands = [], Player_split_count = 0\<rparr>,
      dealer = \<lparr>Dealer_hand = Some 0\<rparr>\<rparr>"

text \<open>A hand with the given cards and bet, still active.\<close>

definition staked_hand :: "card list \<Rightarrow> int \<Rightarrow> hand" where
  "staked_hand cs b = \<lparr>Hand_cards = cs, Hand_bet = Some b, Hand_is_active = True\<rparr>"

section \<open>Verification: the score\<close>

lemma face_to_ten_simps:
  "face_to_ten A = A" "face_to_ten R2 = R2" "face_to_ten R3 = R3" "face_to_ten R4 = R4"
  "face_to_ten R5 = R5" "face_to_ten R6 = R6" "face_to_ten R7 = R7" "face_to_ten R8 = R8"
  "face_to_ten R9 = R9" "face_to_ten R10 = R10" "face_to_ten J = R10" "face_to_ten Q = R10"
  "face_to_ten K = R10"
  by (simp_all add: face_to_ten_def)

lemma low_total_Cons: "low_total (r # rs) = hd (card_values r) + low_total rs"
  by (simp add: low_total_def)

lemma n_aces_Cons: "n_aces (r # rs) = (if r = A then Suc (n_aces rs) else n_aces rs)"
  by (cases r) (simp_all add: n_aces_def face_to_ten_simps)

lemma number_ranks_ok:
  "\<exists>ns. number_ranks (map face_to_ten rs) = Inr ns
        \<and> sum_list ns + int (n_aces rs) = low_total rs"
proof (induction rs)
  case Nil
  show ?case by (simp add: low_total_def n_aces_def)
next
  case (Cons r rs)
  then obtain ns where ns: "number_ranks (map face_to_ten rs) = Inr ns"
    "sum_list ns + int (n_aces rs) = low_total rs" by blast
  show ?case
    by (cases r) (simp_all add: face_to_ten_simps ns(1) ns(2)[symmetric] low_total_Cons n_aces_Cons)
qed

lemma set_totals:
  "set (totals cs) = (\<lambda>k. low_total (map get_rank cs) + 10 * int k) ` {..n_aces (map get_rank cs)}"
proof (induction cs)
  case Nil
  show ?case by (simp add: low_total_def n_aces_def)
next
  case (Cons c cs)
  obtain r s where c: "c = Card r s" by (cases c)
  let ?rs = "map get_rank cs"
  have lt: "low_total (map get_rank (c # cs)) = hd (card_values r) + low_total ?rs"
    by (simp add: low_total_Cons c)
  show ?case
  proof (cases "r = A")
    case False
    then have na: "n_aces (map get_rank (c # cs)) = n_aces ?rs"
      by (simp add: n_aces_Cons c)
    from False obtain v where v: "card_values r = [v]" by (cases r) simp_all
    have "set (totals (c # cs)) = (\<lambda>t. v + t) ` set (totals cs)"
      by (simp add: c v)
    also have "\<dots> = (\<lambda>k. low_total (map get_rank (c # cs)) + 10 * int k) ` {..n_aces (map get_rank (c # cs))}"
      unfolding Cons.IH na lt v by (simp add: image_image add.assoc)
    finally show ?thesis .
  next
    case True
    then have na: "n_aces (map get_rank (c # cs)) = Suc (n_aces ?rs)"
      by (simp add: n_aces_Cons c)
    have "set (totals (c # cs)) = (\<lambda>t. 1 + t) ` set (totals cs) \<union> (\<lambda>t. 11 + t) ` set (totals cs)"
      by (simp add: c True)
    also have "\<dots> = (\<lambda>k. low_total (map get_rank (c # cs)) + 10 * int k) ` {..n_aces (map get_rank (c # cs))}"
    proof -
      have a: "(\<lambda>t. 1 + t) ` set (totals cs) = (\<lambda>k. low_total (map get_rank (c # cs)) + 10 * int k) ` {..n_aces ?rs}"
        unfolding Cons.IH lt True by (simp add: image_image add.assoc)
      have b: "(\<lambda>t. 11 + t) ` set (totals cs) = (\<lambda>k. low_total (map get_rank (c # cs)) + 10 * int k) ` Suc ` {..n_aces ?rs}"
        unfolding Cons.IH lt True by (simp add: image_image add.assoc)
      have "{..Suc (n_aces ?rs)} = {..n_aces ?rs} \<union> Suc ` {..n_aces ?rs}"
      proof (intro set_eqI iffI)
        fix x assume "x \<in> {..Suc (n_aces ?rs)}"
        then show "x \<in> {..n_aces ?rs} \<union> Suc ` {..n_aces ?rs}"
          by (cases x) auto
      next
        fix x assume "x \<in> {..n_aces ?rs} \<union> Suc ` {..n_aces ?rs}"
        then show "x \<in> {..Suc (n_aces ?rs)}" by auto
      qed
      then show ?thesis unfolding a b na by (simp add: image_Un)
    qed
    finally show ?thesis .
  qed
qed

lemma aces_loop_props:
  assumes "k \<le> n" "sum_list as = 11 * int k + int (n - k)"
  shows "(\<exists>j\<le>k. aces_loop n b k as = b + int n + 10 * int j)
       \<and> (\<forall>j\<le>k. b + int n + 10 * int j \<le> 21 \<longrightarrow> b + int n + 10 * int j \<le> aces_loop n b k as)
       \<and> (aces_loop n b k as > 21 \<longrightarrow> aces_loop n b k as = b + int n)"
  using assms
proof (induction k arbitrary: as)
  case 0
  then show ?case by simp
next
  case (Suc k)
  have s: "sum_list as + b = b + int n + 10 * int (Suc k)"
    using Suc.prems by (simp add: of_nat_diff)
  show ?case
  proof (cases "sum_list as + b > 21")
    case False
    then have r: "aces_loop n b (Suc k) as = b + int n + 10 * int (Suc k)"
      using s by simp
    show ?thesis unfolding r using False s by auto
  next
    case True
    let ?as = "replicate k 11 @ replicate (n - k) (1::int)"
    have r: "aces_loop n b (Suc k) as = aces_loop n b k ?as"
      using True by simp
    have "k \<le> n" using Suc.prems by simp
    moreover have "sum_list ?as = 11 * int k + int (n - k)"
      by (simp add: sum_list_replicate)
    ultimately have IH: "(\<exists>j\<le>k. aces_loop n b k ?as = b + int n + 10 * int j)
       \<and> (\<forall>j\<le>k. b + int n + 10 * int j \<le> 21 \<longrightarrow> b + int n + 10 * int j \<le> aces_loop n b k ?as)
       \<and> (aces_loop n b k ?as > 21 \<longrightarrow> aces_loop n b k ?as = b + int n)"
      by (rule Suc.IH)
    show ?thesis unfolding r using IH True s
      by (auto simp: le_Suc_eq)
  qed
qed

lemma get_score_loop:
  "\<exists>ns. number_ranks (map face_to_ten (map get_rank (Hand_cards h))) = Inr ns
     \<and> sum_list ns + int (n_aces (map get_rank (Hand_cards h))) = low_total (map get_rank (Hand_cards h))
     \<and> get_score h = Inr (aces_loop (n_aces (map get_rank (Hand_cards h))) (sum_list ns) (n_aces (map get_rank (Hand_cards h)))
                          (replicate (n_aces (map get_rank (Hand_cards h))) 11))"
proof -
  obtain ns where ns: "number_ranks (map face_to_ten (map get_rank (Hand_cards h))) = Inr ns"
    "sum_list ns + int (n_aces (map get_rank (Hand_cards h))) = low_total (map get_rank (Hand_cards h))"
    using number_ranks_ok by blast
  have "get_score h = Inr (aces_loop (n_aces (map get_rank (Hand_cards h))) (sum_list ns) (n_aces (map get_rank (Hand_cards h)))
                          (replicate (n_aces (map get_rank (Hand_cards h))) 11))"
  proof (cases "Hand_cards h = []")
    case True
    then show ?thesis using ns by (simp add: get_score_def n_aces_def)
  next
    case False
    then show ?thesis using ns by (simp add: get_score_def n_aces_def Let_def)
  qed
  with ns show ?thesis by blast
qed

text \<open>
  Claim C4. For every hand, \<^verbatim>\<open>get_score\<close> returns the largest total not above 21
  among the totals obtained by counting J, Q and K as 10, a number card as its number
  and each Ace as 1 or 11; when every such total is above 21 it returns the smallest
  of them, all Aces counted 1; and the empty hand scores 0.
\<close>

theorem get_score_best_total:
  "get_score h = Inr (spec_score (Hand_cards h))
   \<and> Min (set (totals (Hand_cards h))) = low_total (map get_rank (Hand_cards h))
   \<and> get_score (h\<lparr>Hand_cards := []\<rparr>) = Inr 0"
proof -
  let ?cs = "Hand_cards h"
  let ?n = "n_aces (map get_rank ?cs)"
  let ?L = "low_total (map get_rank ?cs)"
  obtain ns where ns: "sum_list ns + int ?n = ?L"
    "get_score h = Inr (aces_loop ?n (sum_list ns) ?n (replicate ?n 11))"
    using get_score_loop by blast
  define r where "r = aces_loop ?n (sum_list ns) ?n (replicate ?n 11)"
  have "sum_list (replicate ?n (11::int)) = 11 * int ?n + int (?n - ?n)"
    by (simp add: sum_list_replicate)
  from aces_loop_props[OF le_refl this, of "sum_list ns"]
  have p1: "\<exists>j\<le>?n. r = ?L + 10 * int j"
    and p2: "\<forall>j\<le>?n. ?L + 10 * int j \<le> 21 \<longrightarrow> ?L + 10 * int j \<le> r"
    and p3: "r > 21 \<longrightarrow> r = ?L"
    unfolding r_def using ns(1) by (simp_all add: add.commute)
  have S: "set (totals ?cs) = (\<lambda>k. ?L + 10 * int k) ` {..?n}" by (rule set_totals)
  have rin: "r \<in> set (totals ?cs)" using p1 unfolding S by auto
  have "spec_score ?cs = r"
  proof (cases "filter (\<lambda>t. t \<le> 21) (totals ?cs) = []")
    case True
    then have all: "\<forall>t\<in>set (totals ?cs). t > 21" by (auto simp: filter_empty_conv)
    then have "r = ?L" using rin p3 by auto
    moreover have "Min (set (totals ?cs)) = ?L"
      by (rule Min_eqI) (auto simp: S)
    ultimately show ?thesis using True by (simp add: spec_score_def)
  next
    case False
    then obtain t where t: "t \<in> set (totals ?cs)" "t \<le> 21"
      by (auto simp: filter_empty_conv)
    then have "?L \<le> 21" unfolding S by auto
    then have "r \<le> 21" using p3 by auto
    have "Max (set (filter (\<lambda>t. t \<le> 21) (totals ?cs))) = r"
    proof (rule Max_eqI)
      show "finite (set (filter (\<lambda>t. t \<le> 21) (totals ?cs)))" by simp
      show "r \<in> set (filter (\<lambda>t. t \<le> 21) (totals ?cs))" using rin \<open>r \<le> 21\<close> by simp
      fix y assume "y \<in> set (filter (\<lambda>t. t \<le> 21) (totals ?cs))"
      then have "y \<in> (\<lambda>k. ?L + 10 * int k) ` {..?n}" "y \<le> 21"
        using S by auto
      then show "y \<le> r" using p2 by auto
    qed
    then show ?thesis using False by (simp add: spec_score_def)
  qed
  then have "get_score h = Inr (spec_score ?cs)" using ns(2) by (simp add: r_def)
  moreover have "Min (set (totals ?cs)) = ?L"
    by (rule Min_eqI) (auto simp: S)
  moreover have "get_score (h\<lparr>Hand_cards := []\<rparr>) = Inr 0" by (simp add: get_score_def)
  ultimately show ?thesis by blast
qed

section \<open>Verification: the deck\<close>

lemma fold_snoc: "fold (\<lambda>x acc. acc @ [f x]) xs cs = cs @ map f xs"
  by (induction xs arbitrary: cs) simp_all

lemma rank_loop_append: "rank_loop s cs = cs @ map (\<lambda>r. Card r s) RANKS"
  by (simp add: rank_loop_def fold_snoc)

lemma fold_rank_loop: "fold rank_loop ss cs = cs @ concat (map (\<lambda>s. map (\<lambda>r. Card r s) RANKS) ss)"
  by (induction ss arbitrary: cs) (simp_all add: rank_loop_append)

lemma suit_loop_append: "suit_loop cs = cs @ one_pack"
  by (simp add: suit_loop_def one_pack_def fold_rank_loop)

lemma pack_loop_append: "pack_loop n cs = cs @ concat (replicate n one_pack)"
proof (induction n arbitrary: cs)
  case 0
  show ?case by simp
next
  case (Suc n)
  have "concat (replicate (Suc n) one_pack) = one_pack @ concat (replicate n one_pack)"
    by simp
  then show ?case by (simp add: Suc.IH suit_loop_append del: replicate_Suc)
qed

lemma length_one_pack: "length one_pack = 52"
  by (simp add: one_pack_def SUITS_def RANKS_def)

lemma length_packs: "length (concat (replicate n one_pack)) = 52 * n"
  by (induction n) (simp_all add: length_one_pack)

lemma nth_packs:
  "k < 52 * n \<Longrightarrow> concat (replicate n one_pack) ! k = one_pack ! (k mod 52)"
proof (induction n arbitrary: k)
  case 0
  then show ?case by simp
next
  case (Suc n)
  show ?case
  proof (cases "k < 52")
    case True
    then show ?thesis by (simp add: nth_append length_one_pack)
  next
    case False
    then have "k - 52 < 52 * n" using Suc.prems by simp
    then have "concat (replicate n one_pack) ! (k - 52) = one_pack ! ((k - 52) mod 52)"
      by (rule Suc.IH)
    moreover have "(k - 52) mod 52 = k mod 52"
      by (rule le_mod_geq[symmetric]) (use False in simp)
    ultimately show ?thesis using False by (simp add: nth_append length_one_pack)
  qed
qed

lemma nth_concat_map_const:
  assumes "\<And>x. x \<in> set xs \<Longrightarrow> length (f x) = m" "j < m * length xs" "0 < m"
  shows "concat (map f xs) ! j = f (xs ! (j div m)) ! (j mod m)"
  using assms
proof (induction xs arbitrary: j)
  case Nil
  then show ?case by simp
next
  case (Cons x xs)
  have lx: "length (f x) = m" using Cons.prems(1) by simp
  show ?case
  proof (cases "j < m")
    case True
    then show ?thesis by (simp add: nth_append lx)
  next
    case False
    then have jm: "m \<le> j" by simp
    have "j - m < m * length xs" using Cons.prems(2) jm by (simp add: algebra_simps)
    then have IH: "concat (map f xs) ! (j - m) = f (xs ! ((j - m) div m)) ! ((j - m) mod m)"
      using Cons.IH Cons.prems(1,3) by simp
    have d: "j div m = Suc ((j - m) div m)"
      using jm Cons.prems(3) by (simp add: le_div_geq)
    have mo: "(j - m) mod m = j mod m"
      using jm by (rule le_mod_geq[symmetric])
    show ?thesis using False IH by (simp add: nth_append lx d mo)
  qed
qed

lemma nth_one_pack:
  assumes "j < 52"
  shows "one_pack ! j = Card (RANKS ! (j mod 13)) (SUITS ! (j div 13))"
proof -
  have l: "length RANKS = 13" "length SUITS = 4" by (simp_all add: RANKS_def SUITS_def)
  have "one_pack ! j = map (\<lambda>r. Card r (SUITS ! (j div 13))) RANKS ! (j mod 13)"
    unfolding one_pack_def
    by (rule nth_concat_map_const) (use assms l in simp_all)
  then show ?thesis by (simp add: l)
qed

lemma draw_n_prefix:
  "Deck_cards d = xs @ ys \<Longrightarrow> draw_n (length xs) d = (Inr xs, d\<lparr>Deck_cards := ys\<rparr>)"
proof (induction xs arbitrary: d)
  case Nil
  then show ?case by simp
next
  case (Cons x xs)
  have "draw d = (Inr x, d\<lparr>Deck_cards := xs @ ys\<rparr>)"
    using Cons.prems by (simp add: draw_def)
  moreover have "draw_n (length xs) (d\<lparr>Deck_cards := xs @ ys\<rparr>) = (Inr xs, d\<lparr>Deck_cards := ys\<rparr>)"
    using Cons.IH[of "d\<lparr>Deck_cards := xs @ ys\<rparr>"] by simp
  ultimately show ?case by simp
qed

text \<open>
  Claim C6. For every \<open>N\<close> with \<open>0 \<le> N \<le> MAX_DECK_PACKS\<close>, the deck made by
  \<^verbatim>\<open>Deck(N)\<close> gives \<open>52 * N\<close> successful draws; the \<open>k\<close>-th of them (from 0) is the
  card of rank \<open>k mod 13\<close> and suit \<open>k div 13 mod 4\<close>, that is, packs outermost, then
  the four suits in their fixed order, the thirteen ranks A, 2 .. 10, J, Q, K innermost;
  and the next draw raises the empty-deck error.
\<close>

theorem fresh_deck_draws_in_pack_order:
  assumes "0 \<le> N" and "N \<le> MAX_DECK_PACKS cfg"
  shows "\<exists>d cs d'. Deck_init cfg N = Inr d
           \<and> draw_n (52 * nat N) d = (Inr cs, d')
           \<and> length cs = 52 * nat N
           \<and> (\<forall>k < 52 * nat N.
                 cs ! k = Card (RANKS ! (k mod 13)) (SUITS ! ((k div 13) mod 4)))
           \<and> fst (draw d') = Inl (ValueError ''Taking card from empty deck.'')"
proof -
  let ?cs = "concat (replicate (nat N) one_pack)"
  let ?d = "\<lparr>Deck_cards = ?cs, Deck_Deck_cards = None\<rparr>"
  have i: "Deck_init cfg N = Inr ?d"
    using assms by (simp add: Deck_init_def pack_loop_append)
  have l: "length ?cs = 52 * nat N" by (rule length_packs)
  have "draw_n (length ?cs) ?d = (Inr ?cs, ?d\<lparr>Deck_cards := []\<rparr>)"
    by (rule draw_n_prefix) simp
  then have dn: "draw_n (52 * nat N) ?d = (Inr ?cs, ?d\<lparr>Deck_cards := []\<rparr>)"
    by (simp only: l)
  have o: "\<forall>k < 52 * nat N. ?cs ! k = Card (RANKS ! (k mod 13)) (SUITS ! ((k div 13) mod 4))"
  proof (intro allI impI)
    fix k assume k: "k < 52 * nat N"
    have "?cs ! k = one_pack ! (k mod 52)" using k by (rule nth_packs)
    also have "\<dots> = Card (RANKS ! ((k mod 52) mod 13)) (SUITS ! ((k mod 52) div 13))"
      by (rule nth_one_pack) simp
    also have "(k mod 52) mod 13 = k mod 13"
      by (rule mod_mod_cancel) simp
    also have "(k mod 52) div 13 = (k div 13) mod 4"
    proof -
      have "k mod (13 * 4) = 13 * (k div 13 mod 4) + k mod 13"
        by (rule mod_mult2_eq)
      then show ?thesis by simp
    qed
    finally show "?cs ! k = Card (RANKS ! (k mod 13)) (SUITS ! ((k div 13) mod 4))" .
  qed
  have e: "fst (draw (?d\<lparr>Deck_cards := []\<rparr>)) = Inl (ValueError ''Taking card from empty deck.'')"
    by (simp add: draw_def)
  from i dn l o e show ?thesis by blast
qed

theorem fresh_deck_draws_in_pack_order_witness:
  "(0::int) \<le> 2 \<and> 2 \<le> MAX_DECK_PACKS sample_settings
   \<and> (\<exists>d cs d'. Deck_init sample_settings 2 = Inr d
           \<and> draw_n 104 d = (Inr cs, d')
           \<and> length cs = 104
           \<and> (\<forall>k < 104. cs ! k = Card (RANKS ! (k mod 13)) (SUITS ! ((k div 13) mod 4)))
           \<and> fst (draw d') = Inl (ValueError ''Taking card from empty deck.''))"
proof -
  have a: "(0::int) \<le> 2" by simp
  have b: "2 \<le> MAX_DECK_PACKS sample_settings" by (simp add: sample_settings_def)
  from fresh_deck_draws_in_pack_order[OF a b] a b show ?thesis by simp
qed

text \<open>
  Claim C5. A deck made by \<^verbatim>\<open>Deck.pass_cards(cs)\<close> should hold the cards of \<open>cs\<close>.
  The constructor stores them in the attribute \<open>Deck_Deck_cards\<close> and leaves
  \<open>Deck_cards\<close>, the list \<^verbatim>\<open>draw\<close> reads, empty: the first draw already raises.
\<close>

theorem pass_cards_deck_draws_nothing:
  "pass_cards sample_settings [Card A Spades, Card K Hearts]
     = Inr \<lparr>Deck_cards = [], Deck_Deck_cards = Some [Card A Spades, Card K Hearts]\<rparr>
   \<and> draw \<lparr>Deck_cards = [], Deck_Deck_cards = Some [Card A Spades, Card K Hearts]\<rparr>
     = (Inl (ValueError ''Taking card from empty deck.''),
        \<lparr>Deck_cards = [], Deck_Deck_cards = Some [Card A Spades, Card K Hearts]\<rparr>)
   \<and> pass_cards sample_settings [] = Inl (ValueError ''Deck cannot be empty.'')"
  by (simp add: pass_cards_def Deck_init_def sample_settings_def draw_def)

section \<open>Verification: hit\<close>

lemma get_score_total: "\<exists>v. get_score h = Inr v"
  using get_score_loop[of h] by blast

lemma is_bust_total: "\<exists>b. is_bust h = Inr b"
  using get_score_total[of h] by (auto simp: is_bust_def)

lemma is_bust_cards: "Hand_cards h = Hand_cards h' \<Longrightarrow> is_bust h = is_bust h'"
  by (simp add: is_bust_def get_score_def)

text \<open>What a hit that finds a card does to the state.\<close>

lemma hit_effect:
  assumes "(if hand = None then get_hand self st else hand) = Some r"
    and "r < length (heap st)"
    and "Deck_cards (deck st) = c # cs"
  shows "\<exists>a. hit self hand st =
           (Inr (), st\<lparr>deck := (deck st)\<lparr>Deck_cards := cs\<rparr>,
                       heap := (heap st)[r := (heap st ! r)
                                 \<lparr>Hand_cards := Hand_cards (heap st ! r) @ [c],
                                  Hand_is_active := a\<rparr>]\<rparr>)
         \<and> a = (Hand_is_active (heap st ! r)
                \<and> \<not> (is_bust ((heap st ! r)\<lparr>Hand_cards := Hand_cards (heap st ! r) @ [c]\<rparr>) = Inr True
                      \<or> length (Hand_cards (heap st ! r)) = 4))"
proof -
  let ?h = "(heap st ! r)\<lparr>Hand_cards := Hand_cards (heap st ! r) @ [c]\<rparr>"
  obtain b where b: "is_bust ?h = Inr b" using is_bust_total by blast
  show ?thesis
    using assms b
    by (cases b) (auto simp: hit_def draw_def upd_hand_def add_card_def deactivate_def Let_def)
qed

lemma hit_empty_deck:
  "Deck_cards (deck st) = [] \<Longrightarrow>
     hit self hand st = (Inl (ValueError ''Taking card from empty deck.''), st)"
  by (simp add: hit_def draw_def Let_def)

lemma hit_player: "player (snd (hit self hand st)) = player st"
  by (auto simp: hit_def draw_def upd_hand_def Let_def
      split: list.splits option.splits sum.splits)

text \<open>
  Claim C8. For every holder and every active hand, a hit on a non-empty deck removes
  the deck's front card and appends it to the hand, and afterwards the hand is inactive
  exactly when it is bust or holds 5 cards, so a hand brought to 5 cards is
  deactivated whatever its score; a hit on an empty deck raises the empty-deck error
  and leaves the state as it was.
\<close>

theorem hit_draws_and_auto_deactivates:
  assumes "(if hand = None then get_hand self st else hand) = Some r"
    and "r < length (heap st)"
    and "Hand_is_active (heap st ! r)"
  shows "case Deck_cards (deck st) of
           [] \<Rightarrow> hit self hand st = (Inl (ValueError ''Taking card from empty deck.''), st)
         | c # cs \<Rightarrow>
             (\<exists>st'. hit self hand st = (Inr (), st')
                \<and> Deck_cards (deck st') = cs
                \<and> Hand_cards (heap st' ! r) = Hand_cards (heap st ! r) @ [c]
                \<and> Hand_bet (heap st' ! r) = Hand_bet (heap st ! r)
                \<and> (\<not> Hand_is_active (heap st' ! r))
                    = (is_bust (heap st' ! r) = Inr True
                       \<or> length (Hand_cards (heap st' ! r)) = 5)
                \<and> (length (Hand_cards (heap st' ! r)) = 5
                    \<longrightarrow> \<not> Hand_is_active (heap st' ! r)))"
proof (cases "Deck_cards (deck st)")
  case Nil
  then show ?thesis by (simp add: hit_empty_deck)
next
  case (Cons c cs)
  let ?h = "heap st ! r"
  from hit_effect[OF assms(1,2) Cons]
  obtain a where h: "hit self hand st =
           (Inr (), st\<lparr>deck := (deck st)\<lparr>Deck_cards := cs\<rparr>,
                       heap := (heap st)[r := ?h\<lparr>Hand_cards := Hand_cards ?h @ [c],
                                                Hand_is_active := a\<rparr>]\<rparr>)"
    and a: "a = (Hand_is_active ?h
                \<and> \<not> (is_bust (?h\<lparr>Hand_cards := Hand_cards ?h @ [c]\<rparr>) = Inr True
                      \<or> length (Hand_cards ?h) = 4))"
    by blast
  have bc: "is_bust (?h\<lparr>Hand_cards := Hand_cards ?h @ [c], Hand_is_active := a\<rparr>)
            = is_bust (?h\<lparr>Hand_cards := Hand_cards ?h @ [c]\<rparr>)"
    by (rule is_bust_cards) simp
  show ?thesis
    unfolding Cons list.case h
    using assms(2,3) a bc by auto
qed

theorem hit_draws_and_auto_deactivates_witness:
  "(if (None::ref option) = None
    then get_hand PlayerSelf
           (player_table [Card R5 Spades] (staked_hand [Card K Spades, Card R9 Hearts] 10) 100)
    else None) = Some 0
   \<and> Hand_is_active
       (heap (player_table [Card R5 Spades] (staked_hand [Card K Spades, Card R9 Hearts] 10) 100) ! 0)
   \<and> (\<exists>st'. hit PlayerSelf None
               (player_table [Card R5 Spades] (staked_hand [Card K Spades, Card R9 Hearts] 10) 100)
             = (Inr (), st')
         \<and> Deck_cards (deck st') = []
         \<and> Hand_cards (heap st' ! 0) = [Card K Spades, Card R9 Hearts, Card R5 Spades]
         \<and> (\<not> Hand_is_active (heap st' ! 0))
             = (is_bust (heap st' ! 0) = Inr True \<or> length (Hand_cards (heap st' ! 0)) = 5))"
proof -
  let ?st = "player_table [Card R5 Spades] (staked_hand [Card K Spades, Card R9 Hearts] 10) 100"
  have a: "(if (None::ref option) = None then get_hand PlayerSelf ?st else None) = Some 0"
    by (simp add: player_table_def staked_hand_def Player_get_hand_def)
  have b: "0 < length (heap ?st)" by (simp add: player_table_def)
  have c: "Hand_is_active (heap ?st ! 0)" by (simp add: player_table_def staked_hand_def)
  have d: "Deck_cards (deck ?st) = [Card R5 Spades]" by (simp add: player_table_def)
  have e: "Hand_cards (heap ?st ! 0) = [Card K Spades, Card R9 Hearts]"
    by (simp add: player_table_def staked_hand_def)
  from hit_draws_and_auto_deactivates[OF a b c] a c show ?thesis
    unfolding d e by auto
qed

section \<open>Verification: split and double-down\<close>

text \<open>What \<^verbatim>\<open>Player.split\<close> does whenever its statements all run through.\<close>

lemma split_effect:
  assumes res: "(if hand = None then Player_get_hand st else hand) = Some r"
    and r: "r < length (heap st)"
    and bet: "Hand_bet (heap st ! r) = Some b"
    and minb: "MINIMUM_BET cfg \<le> b"
    and cards: "Hand_cards (heap st ! r) \<noteq> []"
    and dk: "Deck_cards (deck st) = d1 # d2 # ds"
  shows "\<exists>st'. Player_split cfg hand st = (Inr (), st')
          \<and> Deck_cards (deck st') = ds
          \<and> length (heap st') = Suc (length (heap st))
          \<and> Hand_cards (heap st' ! r) = butlast (Hand_cards (heap st ! r)) @ [d1]
          \<and> Hand_bet (heap st' ! r) = Some b
          \<and> Hand_cards (heap st' ! length (heap st)) = [last (Hand_cards (heap st ! r)), d2]
          \<and> Hand_bet (heap st' ! length (heap st)) = Some b
          \<and> (\<forall>q < length (heap st). q \<noteq> r \<longrightarrow> heap st' ! q = heap st ! q)
          \<and> Player_purse (player st') = Player_purse (player st) - b
          \<and> Player_split_count (player st') = Player_split_count (player st) + 1
          \<and> Player_hands (player st') = Player_hands (player st) @ [length (heap st)]
          \<and> Player_name (player st') = Player_name (player st)
          \<and> dealer st' = dealer st"
proof -
  let ?n = "length (heap st)"
  let ?h = "heap st ! r"
  define p' where "p' = (player st)\<lparr>Player_split_count := Player_split_count (player st) + 1,
                                    Player_purse := Player_purse (player st) - b\<rparr>"
  define h1 where "h1 = ?h\<lparr>Hand_cards := butlast (Hand_cards ?h)\<rparr>"
  define h2 where "h2 = \<lparr>Hand_cards = [last (Hand_cards ?h)], Hand_bet = Some b, Hand_is_active = True\<rparr>"
  define st5 where "st5 = st\<lparr>player := p', heap := (heap st)[r := h1] @ [h2]\<rparr>"
  have rn: "r \<noteq> ?n" using r by simp
  have step1: "Player_split cfg hand st =
      (case hit PlayerSelf (Some r) st5 of
         (Inl e, st6) \<Rightarrow> (Inl e, st6)
       | (Inr u, st6) \<Rightarrow>
           (case hit PlayerSelf (Some ?n) st6 of
              (Inl e, st7) \<Rightarrow> (Inl e, st7)
            | (Inr v, st7) \<Rightarrow> (Inr (), Player_give_hand ?n st7)))"
    using res r bet minb cards rn
    by (simp add: Player_split_def Let_def upd_hand_def set_bet_def Hand_init_def
        nth_append st5_def p'_def h1_def h2_def list_update_append
        cong: prod.case_cong sum.case_cong)
  have r5: "r < length (heap st5)" using r by (simp add: st5_def)
  have d5: "Deck_cards (deck st5) = d1 # (d2 # ds)" using dk by (simp add: st5_def)
  from hit_effect[of "Some r" PlayerSelf st5 r d1 "d2 # ds", OF _ r5 d5]
  obtain a1 st6 where h6: "hit PlayerSelf (Some r) st5 = (Inr (), st6)"
    and st6: "st6 = st5\<lparr>deck := (deck st5)\<lparr>Deck_cards := d2 # ds\<rparr>,
                       heap := (heap st5)[r := (heap st5 ! r)
                                 \<lparr>Hand_cards := Hand_cards (heap st5 ! r) @ [d1],
                                  Hand_is_active := a1\<rparr>]\<rparr>"
    by auto
  have n6: "?n < length (heap st6)" by (simp add: st6 st5_def)
  have d6: "Deck_cards (deck st6) = d2 # ds" by (simp add: st6)
  from hit_effect[of "Some ?n" PlayerSelf st6 ?n d2 ds, OF _ n6 d6]
  obtain a2 st7 where h7: "hit PlayerSelf (Some ?n) st6 = (Inr (), st7)"
    and st7: "st7 = st6\<lparr>deck := (deck st6)\<lparr>Deck_cards := ds\<rparr>,
                       heap := (heap st6)[?n := (heap st6 ! ?n)
                                 \<lparr>Hand_cards := Hand_cards (heap st6 ! ?n) @ [d2],
                                  Hand_is_active := a2\<rparr>]\<rparr>"
    by auto
  have res': "Player_split cfg hand st = (Inr (), Player_give_hand ?n st7)"
    by (simp add: step1 h6 h7)
  have hp: "heap (Player_give_hand ?n st7) =
      ((heap st)[r := h1\<lparr>Hand_cards := Hand_cards h1 @ [d1], Hand_is_active := a1\<rparr>])
      @ [h2\<lparr>Hand_cards := Hand_cards h2 @ [d2], Hand_is_active := a2\<rparr>]"
    using r rn
    by (simp add: Player_give_hand_def st7 st6 st5_def nth_append list_update_append)
  show ?thesis
  proof (intro exI conjI)
    show "Player_split cfg hand st = (Inr (), Player_give_hand ?n st7)" by (rule res')
    show "Deck_cards (deck (Player_give_hand ?n st7)) = ds"
      by (simp add: Player_give_hand_def st7)
    show "length (heap (Player_give_hand ?n st7)) = Suc ?n" by (simp add: hp)
    show "Hand_cards (heap (Player_give_hand ?n st7) ! r) = butlast (Hand_cards ?h) @ [d1]"
      using r by (simp add: hp nth_append h1_def)
    show "Hand_bet (heap (Player_give_hand ?n st7) ! r) = Some b"
      using r bet by (simp add: hp nth_append h1_def)
    show "Hand_cards (heap (Player_give_hand ?n st7) ! ?n) = [last (Hand_cards ?h), d2]"
      by (simp add: hp nth_append h2_def)
    show "Hand_bet (heap (Player_give_hand ?n st7) ! ?n) = Some b"
      by (simp add: hp nth_append h2_def)
    show "\<forall>q < ?n. q \<noteq> r \<longrightarrow> heap (Player_give_hand ?n st7) ! q = heap st ! q"
      by (simp add: hp nth_append)
    show "Player_purse (player (Player_give_hand ?n st7)) = Player_purse (player st) - b"
      by (simp add: Player_give_hand_def st7 st6 st5_def p'_def)
    show "Player_split_count (player (Player_give_hand ?n st7)) = Player_split_count (player st) + 1"
      by (simp add: Player_give_hand_def st7 st6 st5_def p'_def)
    show "Player_hands (player (Player_give_hand ?n st7)) = Player_hands (player st) @ [?n]"
      by (simp add: Player_give_hand_def st7 st6 st5_def p'_def)
    show "Player_name (player (Player_give_hand ?n st7)) = Player_name (player st)"
      by (simp add: Player_give_hand_def st7 st6 st5_def p'_def)
    show "dealer (Player_give_hand ?n st7) = dealer st"
      by (simp add: Player_give_hand_def st7 st6 st5_def)
  qed
qed

text \<open>The purse after a split or a double-down, however the call ends.\<close>

lemma split_purse:
  assumes "(if hand = None then Player_get_hand st else hand) = Some r"
    and "Hand_bet (heap st ! r) = Some b"
  shows "Player_purse (player (snd (Player_split cfg hand st))) = Player_purse (player st) - b"
proof -
  have hp: "\<And>s h x. Player_purse (player (snd (hit s h x))) = Player_purse (player x)"
    by (simp add: hit_player)
  have hp2: "\<And>s h x o1 y. hit s h x = (o1, y) \<Longrightarrow> player y = player x"
    using hit_player by (metis snd_conv)
  show ?thesis
    using assms
    by (auto simp: Player_split_def Let_def upd_hand_def Player_give_hand_def
        split: sum.splits prod.splits dest!: hp2)
qed

lemma double_down_purse:
  assumes "(if hand = None then Player_get_hand st else hand) = Some r"
    and "Hand_bet (heap st ! r) = Some b"
  shows "Player_purse (player (snd (double_down hand st))) = Player_purse (player st) - b"
proof -
  have hp2: "\<And>s h x o1 y. hit s h x = (o1, y) \<Longrightarrow> player y = player x"
    using hit_player by (metis snd_conv)
  show ?thesis
    using assms
    by (auto simp: double_down_def Let_def upd_hand_def
        split: sum.splits prod.splits dest!: hp2)
qed

text \<open>What \<^verbatim>\<open>Player.double_down\<close> does on a hand with a bet and a deck with a card.\<close>

lemma double_down_effect:
  assumes res: "(if hand = None then Player_get_hand st else hand) = Some r"
    and r: "r < length (heap st)"
    and bet: "Hand_bet (heap st ! r) = Some b"
    and dk: "Deck_cards (deck st) = c # cs"
  shows "\<exists>st'. double_down hand st = (Inr (), st')
          \<and> Player_purse (player st') = Player_purse (player st) - b
          \<and> Deck_cards (deck st') = cs
          \<and> Hand_cards (heap st' ! r) = Hand_cards (heap st ! r) @ [c]
          \<and> Hand_bet (heap st' ! r) = Some (b * 2)
          \<and> \<not> Hand_is_active (heap st' ! r)"
proof -
  define st1 where "st1 = st\<lparr>player := (player st)
                              \<lparr>Player_purse := Player_purse (player st) - b\<rparr>\<rparr>"
  have r1: "r < length (heap st1)" using r by (simp add: st1_def)
  have d1: "Deck_cards (deck st1) = c # cs" using dk by (simp add: st1_def)
  from hit_effect[of "Some r" PlayerSelf st1 r c cs, OF _ r1 d1]
  obtain a st2 where h2: "hit PlayerSelf (Some r) st1 = (Inr (), st2)"
    and st2: "st2 = st1\<lparr>deck := (deck st1)\<lparr>Deck_cards := cs\<rparr>,
                       heap := (heap st1)[r := (heap st1 ! r)
                                 \<lparr>Hand_cards := Hand_cards (heap st1 ! r) @ [c],
                                  Hand_is_active := a\<rparr>]\<rparr>"
    by auto
  have b2: "Hand_bet (heap st2 ! r) = Some b"
    using r bet by (simp add: st2 st1_def)
  have "double_down hand st =
          (Inr (), upd_hand r deactivate
                     (st2\<lparr>heap := (heap st2)[r := (heap st2 ! r)\<lparr>Hand_bet := Some (b * 2)\<rparr>]\<rparr>))"
    using res bet h2 b2 by (simp add: double_down_def Let_def double_bet_def st1_def[symmetric])
  then show ?thesis
    using r bet by (simp add: upd_hand_def deactivate_def st2 st1_def)
qed

text \<open>
  Claim C7. A player whose current hand is a pair of two cards with a bet that
  \<^verbatim>\<open>set_bet\<close> accepts, whose purse covers that bet and whose split count is below
  \<^verbatim>\<open>MAX_SPLITS\<close>, splits successfully on a deck of at least two cards: the original
  hand and the hand appended to the player's list hold 2 cards each and carry the bet
  of the hand before the split, the purse is lower by one bet and the split count
  higher by one.
\<close>

theorem split_pair_succeeds:
  assumes "(if hand = None then Player_get_hand st else hand) = Some r"
    and "r < length (heap st)"
    and "Hand_cards (heap st ! r) = [c1, c2]"
    and "get_rank c1 = get_rank c2"
    and "Hand_bet (heap st ! r) = Some b"
    and "MINIMUM_BET cfg \<le> b"
    and "b \<le> Player_purse (player st)"
    and "Player_split_count (player st) < MAX_SPLITS cfg"
    and "Deck_cards (deck st) = d1 # d2 # ds"
  shows "\<exists>st'. Player_split cfg hand st = (Inr (), st')
          \<and> Player_hands (player st') = Player_hands (player st) @ [length (heap st)]
          \<and> Hand_cards (heap st' ! r) = [c1, d1]
          \<and> Hand_cards (heap st' ! last (Player_hands (player st'))) = [c2, d2]
          \<and> length (Hand_cards (heap st' ! r)) = 2
          \<and> length (Hand_cards (heap st' ! last (Player_hands (player st')))) = 2
          \<and> Hand_bet (heap st' ! r) = Some b
          \<and> Hand_bet (heap st' ! last (Player_hands (player st'))) = Some b
          \<and> Player_purse (player st') = Player_purse (player st) - b
          \<and> Player_split_count (player st') = Player_split_count (player st) + 1"
proof -
  have ne: "Hand_cards (heap st ! r) \<noteq> []" using assms(3) by simp
  from split_effect[OF assms(1,2,5,6) ne assms(9)]
  obtain st' where s: "Player_split cfg hand st = (Inr (), st')"
    "Hand_cards (heap st' ! r) = butlast (Hand_cards (heap st ! r)) @ [d1]"
    "Hand_bet (heap st' ! r) = Some b"
    "Hand_cards (heap st' ! length (heap st)) = [last (Hand_cards (heap st ! r)), d2]"
    "Hand_bet (heap st' ! length (heap st)) = Some b"
    "Player_purse (player st') = Player_purse (player st) - b"
    "Player_split_count (player st') = Player_split_count (player st) + 1"
    "Player_hands (player st') = Player_hands (player st) @ [length (heap st)]"
    by blast
  show ?thesis
    using s assms(3) by simp
qed

theorem split_pair_succeeds_witness:
  "(if (None::ref option) = None
    then Player_get_hand
           (player_table [Card R3 Clubs, Card K Diamonds]
              (staked_hand [Card R8 Spades, Card R8 Hearts] 50) 100)
    else None) = Some 0
   \<and> get_rank (Card R8 Spades) = get_rank (Card R8 Hearts)
   \<and> MINIMUM_BET sample_settings \<le> 50
   \<and> (0::int) < MAX_SPLITS sample_settings
   \<and> (\<exists>st'. Player_split sample_settings None
               (player_table [Card R3 Clubs, Card K Diamonds]
                  (staked_hand [Card R8 Spades, Card R8 Hearts] 50) 100)
             = (Inr (), st')
          \<and> Player_hands (player st') = [0, 1]
          \<and> Hand_cards (heap st' ! 0) = [Card R8 Spades, Card R3 Clubs]
          \<and> Hand_cards (heap st' ! 1) = [Card R8 Hearts, Card K Diamonds]
          \<and> Hand_bet (heap st' ! 0) = Some 50
          \<and> Hand_bet (heap st' ! 1) = Some 50
          \<and> Player_purse (player st') = 50
          \<and> Player_split_count (player st') = 1)"
proof -
  let ?st = "player_table [Card R3 Clubs, Card K Diamonds]
               (staked_hand [Card R8 Spades, Card R8 Hearts] 50) 100"
  have a: "(if (None::ref option) = None then Player_get_hand ?st else None) = Some 0"
    by (simp add: player_table_def staked_hand_def Player_get_hand_def)
  have b: "0 < length (heap ?st)" by (simp add: player_table_def)
  have c: "Hand_cards (heap ?st ! 0) = [Card R8 Spades, Card R8 Hearts]"
    by (simp add: player_table_def staked_hand_def)
  have d: "get_rank (Card R8 Spades) = get_rank (Card R8 Hearts)" by simp
  have e: "Hand_bet (heap ?st ! 0) = Some 50" by (simp add: player_table_def staked_hand_def)
  have f: "MINIMUM_BET sample_settings \<le> 50" by (simp add: sample_settings_def)
  have g: "50 \<le> Player_purse (player ?st)" by (simp add: player_table_def)
  have h: "Player_split_count (player ?st) < MAX_SPLITS sample_settings"
    by (simp add: player_table_def sample_settings_def)
  have i: "Deck_cards (deck ?st) = Card R3 Clubs # Card K Diamonds # []"
    by (simp add: player_table_def)
  have p: "Player_hands (player ?st) = [0]" "length (heap ?st) = 1"
    "Player_purse (player ?st) = 100" "Player_split_count (player ?st) = 0"
    by (simp_all add: player_table_def)
  from split_pair_succeeds[OF a b c d e f g h i]
  obtain st' where "Player_split sample_settings None ?st = (Inr (), st')
          \<and> Player_hands (player st') = [0, 1]
          \<and> Hand_cards (heap st' ! 0) = [Card R8 Spades, Card R3 Clubs]
          \<and> Hand_cards (heap st' ! 1) = [Card R8 Hearts, Card K Diamonds]
          \<and> Hand_bet (heap st' ! 0) = Some 50
          \<and> Hand_bet (heap st' ! 1) = Some 50
          \<and> Player_purse (player st') = 50
          \<and> Player_split_count (player st') = 1"
    unfolding p by auto
  then show ?thesis using a d f by (auto simp: sample_settings_def)
qed

text \<open>
  Claim C1 says that \<^verbatim>\<open>Player.split\<close> raises whenever \<^verbatim>\<open>can_split\<close> is false and
  then leaves the player as it was. The method has no such guard: here the purse (0) is
  below the bet (10), \<^verbatim>\<open>can_split\<close> answers \<^verbatim>\<open>False\<close>, and the split goes through,
  taking the purse to -10 and the split count to 1.
\<close>

theorem split_ineligible_counterexample:
  "can_split sample_settings None
     (player_table [Card R3 Clubs, Card K Diamonds]
        (staked_hand [Card R8 Spades, Card R8 Hearts] 10) 0) = Inr False
   \<and> fst (Player_split sample_settings None
            (player_table [Card R3 Clubs, Card K Diamonds]
               (staked_hand [Card R8 Spades, Card R8 Hearts] 10) 0)) = Inr ()
   \<and> Player_purse (player (snd (Player_split sample_settings None
            (player_table [Card R3 Clubs, Card K Diamonds]
               (staked_hand [Card R8 Spades, Card R8 Hearts] 10) 0)))) = - 10
   \<and> Player_split_count (player (snd (Player_split sample_settings None
            (player_table [Card R3 Clubs, Card K Diamonds]
               (staked_hand [Card R8 Spades, Card R8 Hearts] 10) 0)))) = 1"
proof -
  let ?st = "player_table [Card R3 Clubs, Card K Diamonds]
               (staked_hand [Card R8 Spades, Card R8 Hearts] 10) 0"
  have a: "(if (None::ref option) = None then Player_get_hand ?st else None) = Some 0"
    by (simp add: player_table_def staked_hand_def Player_get_hand_def)
  have b: "0 < length (heap ?st)" by (simp add: player_table_def)
  have e: "Hand_bet (heap ?st ! 0) = Some 10" by (simp add: player_table_def staked_hand_def)
  have f: "MINIMUM_BET sample_settings \<le> 10" by (simp add: sample_settings_def)
  have ne: "Hand_cards (heap ?st ! 0) \<noteq> []" by (simp add: player_table_def staked_hand_def)
  have i: "Deck_cards (deck ?st) = Card R3 Clubs # Card K Diamonds # []"
    by (simp add: player_table_def)
  have p: "Player_purse (player ?st) = 0" "Player_split_count (player ?st) = 0"
    by (simp_all add: player_table_def)
  have cs: "can_split sample_settings None ?st = Inr False"
    by (simp add: can_split_def player_table_def staked_hand_def Player_get_hand_def)
  from split_effect[OF a b e f ne i]
  obtain st' where "Player_split sample_settings None ?st = (Inr (), st')"
    "Player_purse (player st') = - 10" "Player_split_count (player st') = 1"
    unfolding p by auto
  with cs show ?thesis by simp
qed

text \<open>
  Claim C1, amended. \<^verbatim>\<open>Player.split\<close> does not consult \<^verbatim>\<open>can_split\<close>. On a hand
  that holds at least one card and carries a bet \<open>b\<close> that \<^verbatim>\<open>set_bet\<close> accepts, and a
  deck of at least two cards, it succeeds whatever the purse, the split count and the
  ranks are, and leaves the purse lower by \<open>b\<close> and the split count higher by one.
  Ineligibility is reported by the query \<^verbatim>\<open>can_split\<close> alone, which answers
  \<^verbatim>\<open>False\<close> whenever the purse is below the bet or the split count has reached
  \<^verbatim>\<open>MAX_SPLITS\<close>.
\<close>

theorem split_runs_without_guard:
  assumes "(if hand = None then Player_get_hand st else hand) = Some r"
    and "r < length (heap st)"
    and "Hand_bet (heap st ! r) = Some b"
    and "MINIMUM_BET cfg \<le> b"
    and "Hand_cards (heap st ! r) \<noteq> []"
    and "Deck_cards (deck st) = d1 # d2 # ds"
  shows "(\<exists>st'. Player_split cfg hand st = (Inr (), st')
            \<and> Player_purse (player st') = Player_purse (player st) - b
            \<and> Player_split_count (player st') = Player_split_count (player st) + 1)
         \<and> (Player_purse (player st) < b \<or> MAX_SPLITS cfg \<le> Player_split_count (player st)
              \<longrightarrow> can_split cfg hand st = Inr False)"
proof -
  from split_effect[OF assms]
  have "\<exists>st'. Player_split cfg hand st = (Inr (), st')
            \<and> Player_purse (player st') = Player_purse (player st) - b
            \<and> Player_split_count (player st') = Player_split_count (player st) + 1"
    by blast
  moreover have "Player_purse (player st) < b \<or> MAX_SPLITS cfg \<le> Player_split_count (player st)
              \<longrightarrow> can_split cfg hand st = Inr False"
    using assms(1,3) by (auto simp: can_split_def Let_def)
  ultimately show ?thesis by blast
qed

theorem split_runs_without_guard_witness:
  "(if (None::ref option) = None
    then Player_get_hand
           (player_table [Card R3 Clubs, Card K Diamonds]
              (staked_hand [Card R8 Spades, Card R5 Hearts] 20) 5)
    else None) = Some 0
   \<and> MINIMUM_BET sample_settings \<le> 20
   \<and> (\<exists>st'. Player_split sample_settings None
               (player_table [Card R3 Clubs, Card K Diamonds]
                  (staked_hand [Card R8 Spades, Card R5 Hearts] 20) 5)
             = (Inr (), st')
            \<and> Player_purse (player st') = - 15
            \<and> Player_split_count (player st') = 1)
   \<and> can_split sample_settings None
        (player_table [Card R3 Clubs, Card K Diamonds]
           (staked_hand [Card R8 Spades, Card R5 Hearts] 20) 5) = Inr False"
proof -
  let ?st = "player_table [Card R3 Clubs, Card K Diamonds]
               (staked_hand [Card R8 Spades, Card R5 Hearts] 20) 5"
  have a: "(if (None::ref option) = None then Player_get_hand ?st else None) = Some 0"
    by (simp add: player_table_def staked_hand_def Player_get_hand_def)
  have b: "0 < length (heap ?st)" by (simp add: player_table_def)
  have e: "Hand_bet (heap ?st ! 0) = Some 20" by (simp add: player_table_def staked_hand_def)
  have f: "MINIMUM_BET sample_settings \<le> 20" by (simp add: sample_settings_def)
  have ne: "Hand_cards (heap ?st ! 0) \<noteq> []" by (simp add: player_table_def staked_hand_def)
  have i: "Deck_cards (deck ?st) = Card R3 Clubs # Card K Diamonds # []"
    by (simp add: player_table_def)
  have p: "Player_purse (player ?st) = 5" "Player_split_count (player ?st) = 0"
    by (simp_all add: player_table_def)
  from split_runs_without_guard[OF a b e f ne i] a f show ?thesis
    unfolding p by simp
qed

text \<open>
  Claim C2 says that no operation leaves a non-negative purse negative. Neither
  \<^verbatim>\<open>split\<close> nor \<^verbatim>\<open>double_down\<close> compares the purse with the bet: here the purse is
  5, the bet 10, and the double-down goes through and leaves -5.
\<close>

theorem purse_negative_counterexample:
  "0 \<le> Player_purse (player
          (player_table [Card R3 Clubs] (staked_hand [Card R8 Spades, Card R5 Hearts] 10) 5))
   \<and> fst (double_down None
            (player_table [Card R3 Clubs] (staked_hand [Card R8 Spades, Card R5 Hearts] 10) 5))
       = Inr ()
   \<and> Player_purse (player (snd (double_down None
            (player_table [Card R3 Clubs] (staked_hand [Card R8 Spades, Card R5 Hearts] 10) 5))))
       = - 5"
proof -
  let ?st = "player_table [Card R3 Clubs] (staked_hand [Card R8 Spades, Card R5 Hearts] 10) 5"
  have a: "(if (None::ref option) = None then Player_get_hand ?st else None) = Some 0"
    by (simp add: player_table_def staked_hand_def Player_get_hand_def)
  have b: "0 < length (heap ?st)" by (simp add: player_table_def)
  have e: "Hand_bet (heap ?st ! 0) = Some 10" by (simp add: player_table_def staked_hand_def)
  have i: "Deck_cards (deck ?st) = Card R3 Clubs # []" by (simp add: player_table_def)
  have p: "Player_purse (player ?st) = 5" by (simp add: player_table_def)
  from double_down_effect[OF a b e i]
  obtain st' where "double_down None ?st = (Inr (), st')" "Player_purse (player st') = - 5"
    unfolding p by auto
  then show ?thesis by (simp add: p)
qed

text \<open>
  Claim C2, amended. \<^verbatim>\<open>Player.split\<close> and \<^verbatim>\<open>Player.double_down\<close> debit the purse
  by the bet of the hand without a check of their own. When the purse covers that bet,
  which is the condition \<^verbatim>\<open>can_split\<close> and \<^verbatim>\<open>can_double_down\<close> test, the purse
  after either call, however the call ends, is the purse before minus the bet, and it is
  not negative.
\<close>

theorem purse_nonnegative_when_bet_covered:
  assumes "(if hand = None then Player_get_hand st else hand) = Some r"
    and "Hand_bet (heap st ! r) = Some b"
    and "b \<le> Player_purse (player st)"
  shows "Player_purse (player (snd (Player_split cfg hand st))) = Player_purse (player st) - b
       \<and> 0 \<le> Player_purse (player (snd (Player_split cfg hand st)))
       \<and> Player_purse (player (snd (double_down hand st))) = Player_purse (player st) - b
       \<and> 0 \<le> Player_purse (player (snd (double_down hand st)))"
  using assms(3) split_purse[OF assms(1,2), of cfg] double_down_purse[OF assms(1,2)]
  by simp

theorem purse_nonnegative_when_bet_covered_witness:
  "(if (None::ref option) = None
    then Player_get_hand
           (player_table [Card R3 Clubs, Card K Diamonds]
              (staked_hand [Card R8 Spades, Card R8 Hearts] 10) 10)
    else None) = Some 0
   \<and> Player_purse (player (snd (Player_split sample_settings None
           (player_table [Card R3 Clubs, Card K Diamonds]
              (staked_hand [Card R8 Spades, Card R8 Hearts] 10) 10)))) = 0
   \<and> Player_purse (player (snd (double_down None
           (player_table [Card R3 Clubs, Card K Diamonds]
              (staked_hand [Card R8 Spades, Card R8 Hearts] 10) 10)))) = 0"
proof -
  let ?st = "player_table [Card R3 Clubs, Card K Diamonds]
               (staked_hand [Card R8 Spades, Card R8 Hearts] 10) 10"
  have a: "(if (None::ref option) = None then Player_get_hand ?st else None) = Some 0"
    by (simp add: player_table_def staked_hand_def Player_get_hand_def)
  have e: "Hand_bet (heap ?st ! 0) = Some 10" by (simp add: player_table_def staked_hand_def)
  have p: "Player_purse (player ?st) = 10" by (simp add: player_table_def)
  have g: "10 \<le> Player_purse (player ?st)" by (simp add: p)
  from purse_nonnegative_when_bet_covered[OF a e g, of sample_settings] a show ?thesis
    unfolding p by simp
qed

text \<open>
  Claim C3 says that \<^verbatim>\<open>Player.double_down\<close> raises when the hand does not hold
  exactly 2 cards or the purse is below the bet. The method has no such guard: here the
  hand holds 3 cards, \<^verbatim>\<open>can_double_down\<close> answers \<^verbatim>\<open>False\<close>, and the double-down
  goes through.
\<close>

theorem double_down_ineligible_counterexample:
  "can_double_down None
     (player_table [Card R3 Clubs]
        (staked_hand [Card R2 Spades, Card R5 Hearts, Card R4 Clubs] 10) 100) = Inr False
   \<and> fst (double_down None
            (player_table [Card R3 Clubs]
               (staked_hand [Card R2 Spades, Card R5 Hearts, Card R4 Clubs] 10) 100)) = Inr ()
   \<and> Player_purse (player (snd (double_down None
            (player_table [Card R3 Clubs]
               (staked_hand [Card R2 Spades, Card R5 Hearts, Card R4 Clubs] 10) 100)))) = 90"
proof -
  let ?st = "player_table [Card R3 Clubs]
               (staked_hand [Card R2 Spades, Card R5 Hearts, Card R4 Clubs] 10) 100"
  have a: "(if (None::ref option) = None then Player_get_hand ?st else None) = Some 0"
    by (simp add: player_table_def staked_hand_def Player_get_hand_def)
  have b: "0 < length (heap ?st)" by (simp add: player_table_def)
  have e: "Hand_bet (heap ?st ! 0) = Some 10" by (simp add: player_table_def staked_hand_def)
  have i: "Deck_cards (deck ?st) = Card R3 Clubs # []" by (simp add: player_table_def)
  have p: "Player_purse (player ?st) = 100" by (simp add: player_table_def)
  have cd: "can_double_down None ?st = Inr False"
    by (simp add: can_double_down_def player_table_def staked_hand_def Player_get_hand_def)
  from double_down_effect[OF a b e i]
  obtain st' where "double_down None ?st = (Inr (), st')" "Player_purse (player st') = 90"
    unfolding p by auto
  with cd show ?thesis by simp
qed

text \<open>
  Claim C3, amended. \<^verbatim>\<open>Player.double_down\<close> does not consult
  \<^verbatim>\<open>can_double_down\<close>. On a hand that carries a bet \<open>b\<close> and a deck that is not
  empty it succeeds whatever the purse and the number of cards are: the purse is lower
  by \<open>b\<close>, the deck's front card is appended to the hand, the bet is doubled and the
  hand is inactive. Ineligibility is reported by the query \<^verbatim>\<open>can_double_down\<close> alone,
  which answers \<^verbatim>\<open>True\<close> exactly when the purse covers the bet and the hand holds 2
  cards.
\<close>

theorem double_down_runs_without_guard:
  assumes "(if hand = None then Player_get_hand st else hand) = Some r"
    and "r < length (heap st)"
    and "Hand_bet (heap st ! r) = Some b"
    and "Deck_cards (deck st) = c # cs"
  shows "(\<exists>st'. double_down hand st = (Inr (), st')
            \<and> Player_purse (player st') = Player_purse (player st) - b
            \<and> Deck_cards (deck st') = cs
            \<and> Hand_cards (heap st' ! r) = Hand_cards (heap st ! r) @ [c]
            \<and> Hand_bet (heap st' ! r) = Some (b * 2)
            \<and> \<not> Hand_is_active (heap st' ! r))
         \<and> can_double_down hand st
             = Inr (b \<le> Player_purse (player st) \<and> length (Hand_cards (heap st ! r)) = 2)"
proof -
  have "can_double_down hand st
             = Inr (b \<le> Player_purse (player st) \<and> length (Hand_cards (heap st ! r)) = 2)"
    using assms(1,3) by (auto simp: can_double_down_def Let_def)
  with double_down_effect[OF assms] show ?thesis by blast
qed

theorem double_down_runs_without_guard_witness:
  "(if (None::ref option) = None
    then Player_get_hand
           (player_table [Card R3 Clubs]
              (staked_hand [Card R2 Spades, Card R5 Hearts, Card R4 Clubs] 10) 4)
    else None) = Some 0
   \<and> (\<exists>st'. double_down None
               (player_table [Card R3 Clubs]
                  (staked_hand [Card R2 Spades, Card R5 Hearts, Card R4 Clubs] 10) 4)
             = (Inr (), st')
            \<and> Player_purse (player st') = - 6
            \<and> Deck_cards (deck st') = []
            \<and> Hand_cards (heap st' ! 0)
                = [Card R2 Spades, Card R5 Hearts, Card R4 Clubs, Card R3 Clubs]
            \<and> Hand_bet (heap st' ! 0) = Some 20
            \<and> \<not> Hand_is_active (heap st' ! 0))
   \<and> can_double_down None
        (player_table [Card R3 Clubs]
           (staked_hand [Card R2 Spades, Card R5 Hearts, Card R4 Clubs] 10) 4) = Inr False"
proof -
  let ?st = "player_table [Card R3 Clubs]
               (staked_hand [Card R2 Spades, Card R5 Hearts, Card R4 Clubs] 10) 4"
  have a: "(if (None::ref option) = None then Player_get_hand ?st else None) = Some 0"
    by (simp add: player_table_def staked_hand_def Player_get_hand_def)
  have b: "0 < length (heap ?st)" by (simp add: player_table_def)
  have e: "Hand_bet (heap ?st ! 0) = Some 10" by (simp add: player_table_def staked_hand_def)
  have i: "Deck_cards (deck ?st) = Card R3 Clubs # []" by (simp add: player_table_def)
  have p: "Player_purse (player ?st) = 4"
    "Hand_cards (heap ?st ! 0) = [Card R2 Spades, Card R5 Hearts, Card R4 Clubs]"
    by (simp_all add: player_table_def staked_hand_def)
  from double_down_runs_without_guard[OF a b e i] a show ?thesis
    unfolding p by simp
qed

section \<open>Verification: the queries\<close>

text \<open>
  Claim C9. \<^verbatim>\<open>Player.get_purse\<close> should return the player's purse. Its body is the
  docstring alone: for a player made with purse 100 the call returns \<^verbatim>\<open>None\<close>.
\<close>

theorem get_purse_returns_nothing:
  "Player_init ''Ann'' 100
     = Inr \<lparr>Player_name = ''Ann'', Player_purse = 100,
            Player_hands = [], Player_split_count = 0\<rparr>
   \<and> get_purse \<lparr>Player_name = ''Ann'', Player_purse = 100,
                 Player_hands = [], Player_split_count = 0\<rparr> = None"
  by (simp add: Player_init_def get_purse_def)

text \<open>
  Claim C10 ends with: the dealer's \<^verbatim>\<open>upcard\<close> and \<^verbatim>\<open>hole_card\<close> both fail on a
  hand of fewer than 2 cards. The hole card is the card at index 0: on a hand of one
  card \<^verbatim>\<open>hole_card\<close> returns it.
\<close>

theorem hole_card_one_card_counterexample:
  "length (Hand_cards (heap (dealer_table [Card A Spades]) ! 0)) < 2
   \<and> hole_card (dealer_table [Card A Spades]) = Inr (Card A Spades)
   \<and> upcard (dealer_table [Card A Spades]) = Inl IndexError"
  by (simp add: dealer_table_def Hand_init_def hole_card_def upcard_def get_card_by_index_def)

text \<open>
  Claim C10, amended. \<^verbatim>\<open>get_card_by_index\<close> raises its own \<open>ValueError\<close> exactly
  when the index is outside \<open>{0, 1}\<close>; for an index in \<open>{0, 1}\<close> on a hand of fewer
  than index + 1 cards it raises \<open>IndexError\<close> instead. So the dealer's \<^verbatim>\<open>upcard\<close>
  fails on a hand of fewer than 2 cards, and \<^verbatim>\<open>hole_card\<close> fails on an empty hand;
  on a hand of one card \<^verbatim>\<open>hole_card\<close> returns that card.
\<close>

theorem card_by_index_failures:
  "(get_card_by_index h i
      = Inl (ValueError ''get_card_by_index method being used incorrectly.''))
     = (i \<notin> {0, 1})
   \<and> (j \<in> {0, 1} \<and> int (length (Hand_cards g)) < j + 1
        \<longrightarrow> get_card_by_index g j = Inl IndexError)
   \<and> (Dealer_hand (dealer st) = Some r \<and> length (Hand_cards (heap st ! r)) < 2
        \<longrightarrow> upcard st = Inl IndexError)
   \<and> (Dealer_hand (dealer st0) = Some r0 \<and> Hand_cards (heap st0 ! r0) = []
        \<longrightarrow> hole_card st0 = Inl IndexError)
   \<and> (Dealer_hand (dealer st1) = Some r1 \<and> Hand_cards (heap st1 ! r1) = [c]
        \<longrightarrow> hole_card st1 = Inr c)"
  by (auto simp: get_card_by_index_def upcard_def hole_card_def)

theorem card_by_index_failures_witness:
  "get_card_by_index (Hand_init (Some [Card A Spades, Card K Hearts])) 2
      = Inl (ValueError ''get_card_by_index method being used incorrectly.'')
   \<and> get_card_by_index (Hand_init (Some [Card A Spades])) 1 = Inl IndexError
   \<and> upcard (dealer_table [Card A Spades]) = Inl IndexError
   \<and> hole_card (dealer_table []) = Inl IndexError
   \<and> hole_card (dealer_table [Card K Hearts]) = Inr (Card K Hearts)"
  using card_by_index_failures[of "Hand_init (Some [Card A Spades, Card K Hearts])" 2
      1 "Hand_init (Some [Card A Spades])" "dealer_table [Card A Spades]" 0
      "dealer_table []" 0 "dealer_table [Card K Hearts]" 0 "Card K Hearts"]
  by (simp add: dealer_table_def Hand_init_def)

end
